theory Spec2Isabelle
  imports Complex_Main
begin

section \<open>The backtest engine of main.py\<close>

text \<open>
  The indicator library (\<open>ema\<close>, \<open>sma\<close>, \<open>rsi\<close>, \<open>atr\<close>) and the backtest
  engine (\<open>run_backtest\<close>) of \<^verbatim>\<open>main.py\<close>, function by function.

  Numbers: Python ints (spans, periods, timestamps) are \<^typ>\<open>int\<close>; list positions
  produced by \<^verbatim>\<open>range\<close> and \<^verbatim>\<open>enumerate\<close> are \<^typ>\<open>nat\<close>. Python floats
  are IEEE doubles; the model computes with exact reals (\<^typ>\<open>real\<close>), the constants
  \<^verbatim>\<open>1e-8\<close>, \<^verbatim>\<open>1e-9\<close> and \<^verbatim>\<open>1e-12\<close> being \<open>1/10^8\<close>, \<open>1/10^9\<close> and
  \<open>1/10^12\<close>. Rounding, overflow to infinity and NaN are therefore outside the model.
  The theorems of this file are about control flow, lengths and exceptions, or
  equate a result with the very expression the program evaluates (an exit price with the
  stop, the new equity with \<open>qty * exit\<close>, an element of the EMA with its recurrence), so
  that they read the same with each operation taken as the operation on doubles. Laws
  that need the algebra of the reals or the absence of overflow (that a stop-out loses
  exactly the risked amount, that the RSI stays between 0 and 100, that the running sum of
  \<open>sma\<close> is the sum of each window) are not among them.

  Errors: every function that can raise returns \<open>py_error + 'a\<close>, with \<open>Inl\<close> for the
  exception. A division by zero raises \<^verbatim>\<open>ZeroDivisionError\<close> (also on floats) and an
  out-of-range read raises \<^verbatim>\<open>IndexError\<close>. \<^verbatim>\<open>OverflowError\<close> is raised in two
  places: where arithmetic mixes a float with an int that is too large to convert to a
  float, and where a list is repeated a number of times that does not fit the index type.
  Exhausted memory is not modelled.
\<close>

datatype py_error = ZeroDivisionError | IndexError | OverflowError

text \<open>
  An int converts to the nearest double (ties to even); the conversion raises when that
  is beyond the largest finite double \<open>2^1024 - 2^971\<close>, that is from
  \<open>2^1024 - 2^970\<close> on in absolute value. A repetition count of
  \<^verbatim>\<open>[50]*n\<close> must fit a signed 64-bit index (CPython on a 64-bit platform); a
  negative count that fits gives the empty list.
\<close>

definition float_overflow :: "int \<Rightarrow> bool" where
  "float_overflow n \<longleftrightarrow> \<bar>n\<bar> \<ge> 2 ^ 1024 - 2 ^ 970"

definition index_overflow :: "int \<Rightarrow> bool" where
  "index_overflow n \<longleftrightarrow> n < - (2 ^ 63) \<or> n > 2 ^ 63 - 1"

text \<open>A \<^verbatim>\<open>for\<close> loop whose body may raise: the first exception ends the loop.\<close>

fun for_loop :: "('s \<Rightarrow> 'a \<Rightarrow> py_error + 's) \<Rightarrow> 'a list \<Rightarrow> 's \<Rightarrow> py_error + 's" where
  "for_loop body [] s = Inr s"
| "for_loop body (x # xs) s =
     (case body s x of Inl e \<Rightarrow> Inl e | Inr s' \<Rightarrow> for_loop body xs s')"

text \<open>
  Python slices \<^verbatim>\<open>xs[:n]\<close> and \<^verbatim>\<open>xs[n:]\<close> with an int bound: a negative bound
  counts from the end, and every bound is clipped to the list.
\<close>

definition slice_to :: "'a list \<Rightarrow> int \<Rightarrow> 'a list" where
  "slice_to xs n = (if n < 0 then take (nat (int (length xs) + n)) xs else take (nat n) xs)"

definition slice_from :: "'a list \<Rightarrow> int \<Rightarrow> 'a list" where
  "slice_from xs n = (if n < 0 then drop (nat (int (length xs) + n)) xs else drop (nat n) xs)"

subsection \<open>Configuration\<close>

text \<open>
  The module-level constants that \<open>run_backtest\<close> reads. The module takes them from the
  environment (\<^verbatim>\<open>int(os.getenv("EMA_FAST", "8"))\<close> and so on), so they are parameters
  here; \<open>default_config\<close> holds the values used when the environment sets none.
\<close>

record config =
  EMA_FAST :: int
  EMA_SLOW :: int
  RSI_PERIOD :: int
  VOLUME_MULTIPLIER :: real

definition default_config :: config where
  "default_config = \<lparr>EMA_FAST = 8, EMA_SLOW = 21, RSI_PERIOD = 14, VOLUME_MULTIPLIER = 1\<rparr>"

subsection \<open>Indicators\<close>

text \<open>
  \<^verbatim>\<open>
  def ema(values, span):
      if not values: return []
      alpha = 2.0/(span+1)
      out=[values[0]]
      for v in values[1:]:
          out.append((v - out[-1]) * alpha + out[-1])
      return out
  \<close>
  \<open>ema_body\<close> is the body of the loop, on the list \<open>out\<close>. The division
  \<^verbatim>\<open>2.0/(span+1)\<close> first converts the int \<open>span + 1\<close> to a float, which raises
  \<^verbatim>\<open>OverflowError\<close> when it is too large, and then raises
  \<^verbatim>\<open>ZeroDivisionError\<close> when it is zero.
\<close>

definition ema_body :: "real \<Rightarrow> real list \<Rightarrow> real \<Rightarrow> real list" where
  "ema_body alpha out v = out @ [(v - last out) * alpha + last out]"

definition ema :: "real list \<Rightarrow> int \<Rightarrow> py_error + real list" where
  "ema values span' =
     (case values of
        [] \<Rightarrow> Inr []
      | v0 # vs \<Rightarrow>
          if float_overflow (span' + 1) then Inl OverflowError
          else if span' + 1 = 0 then Inl ZeroDivisionError
          else let alpha = 2 / real_of_int (span' + 1)
               in Inr (foldl (ema_body alpha) [v0] vs))"

text \<open>
  \<^verbatim>\<open>
  def sma(values, period):
      out=[]
      s=0.0
      for i,v in enumerate(values):
          s += v
          if i>=period:
              s -= values[i-period]
              out.append(s/period)
          elif i==period-1:
              out.append(s/period)
      return out
  \<close>
  The loop state is the pair \<open>(s, out)\<close>. In the first branch \<open>i - period\<close> is not
  negative, so the read is an ordinary one and raises when it is past the end (a negative
  period). \<open>s\<close> is a float, so the division converts the period to a float first and
  then raises when the period is \<open>0\<close>.
\<close>

definition sma_step :: "real list \<Rightarrow> int \<Rightarrow> real \<times> real list \<Rightarrow> nat \<times> real \<Rightarrow> py_error + real \<times> real list" where
  "sma_step values period st iv =
     (case st of (s, out) \<Rightarrow> case iv of (i, v) \<Rightarrow>
        let s = s + v in
        if int i \<ge> period then
          (if nat (int i - period) \<ge> length values then Inl IndexError
           else let s = s - values ! nat (int i - period) in
             if float_overflow period then Inl OverflowError
             else if period = 0 then Inl ZeroDivisionError
             else Inr (s, out @ [s / real_of_int period]))
        else if int i = period - 1 then
          (if float_overflow period then Inl OverflowError
           else Inr (s, out @ [s / real_of_int period]))
        else Inr (s, out))"

definition sma :: "real list \<Rightarrow> int \<Rightarrow> py_error + real list" where
  "sma values period =
     (case for_loop (sma_step values period) (zip [0..<length values] values) (0, []) of
        Inl e \<Rightarrow> Inl e
      | Inr (s, out) \<Rightarrow> Inr out)"

text \<open>
  \<^verbatim>\<open>
  def rsi(values, period=14):
      if len(values) < period+1:
          return [50]*len(values)
      deltas = [values[i]-values[i-1] for i in range(1,len(values))]
      ups = [d if d>0 else 0 for d in deltas]
      downs = [ -d if d<0 else 0 for d in deltas]
      up_avg = sum(ups[:period])/period
      down_avg = sum(downs[:period])/period or 1e-9
      out = [50]*(period+1)
      for d_up,d_down in zip(ups[period:], downs[period:]):
          up_avg = (up_avg*(period-1) + d_up)/period
          down_avg = (down_avg*(period-1) + d_down)/period
          rs = up_avg/(down_avg+1e-12)
          out.append(100 - (100/(1+rs)))
      return out
  \<close>
  The loop state is \<open>(up_avg, down_avg, out)\<close>. \<^verbatim>\<open>x or 1e-9\<close> is \<^verbatim>\<open>1e-9\<close> when
  \<open>x\<close> is zero and \<open>x\<close> otherwise.

  Where the period meets a float it is converted. In the loop \<open>up_avg\<close> is a float, so
  \<^verbatim>\<open>up_avg*(period-1)\<close> converts \<open>period - 1\<close> and the division converts
  \<open>period\<close>. The lists \<open>ups\<close> and \<open>downs\<close> hold the int \<open>0\<close> where they are zero
  and a float elsewhere, and \<^verbatim>\<open>sum\<close> starts from the int \<open>0\<close>: the sum of a slice
  is a float exactly when the slice has a non-zero element, and only then does the
  division of the seed convert the period (the quotient of the int \<open>0\<close> by a non-zero int
  is a zero float, whatever the size of the divisor).
\<close>

definition rsi_step :: "int \<Rightarrow> real \<times> real \<times> real list \<Rightarrow> real \<times> real \<Rightarrow> py_error + real \<times> real \<times> real list" where
  "rsi_step period st d =
     (case st of (up_avg, down_avg, out) \<Rightarrow> case d of (d_up, d_down) \<Rightarrow>
        if float_overflow (period - 1) \<or> float_overflow period then Inl OverflowError
        else if period = 0 then Inl ZeroDivisionError
        else
          let up_avg = (up_avg * real_of_int (period - 1) + d_up) / real_of_int period;
              down_avg = (down_avg * real_of_int (period - 1) + d_down) / real_of_int period
          in if down_avg + 1 / 10 ^ 12 = 0 then Inl ZeroDivisionError
             else let rs = up_avg / (down_avg + 1 / 10 ^ 12)
                  in if 1 + rs = 0 then Inl ZeroDivisionError
                     else Inr (up_avg, down_avg, out @ [100 - 100 / (1 + rs)]))"

definition rsi :: "real list \<Rightarrow> int \<Rightarrow> py_error + real list" where
  "rsi values period =
     (if int (length values) < period + 1 then Inr (replicate (length values) 50)
      else
        let deltas = map (\<lambda>i. values ! i - values ! (i - 1)) [1..<length values];
            ups = map (\<lambda>d. if d > 0 then d else 0) deltas;
            downs = map (\<lambda>d. if d < 0 then - d else 0) deltas
        in if period = 0 then Inl ZeroDivisionError
           else if float_overflow period \<and>
                   (list_ex (\<lambda>x. x \<noteq> 0) (slice_to ups period) \<or>
                    list_ex (\<lambda>x. x \<noteq> 0) (slice_to downs period))
             then Inl OverflowError
           else if index_overflow (period + 1) then Inl OverflowError
           else
             let up_avg = sum_list (slice_to ups period) / real_of_int period;
                 down_avg = (let x = sum_list (slice_to downs period) / real_of_int period
                             in if x = 0 then 1 / 10 ^ 9 else x);
                 out = replicate (nat (period + 1)) 50
             in case for_loop (rsi_step period)
                       (zip (slice_from ups period) (slice_from downs period))
                       (up_avg, down_avg, out) of
                  Inl e \<Rightarrow> Inl e
                | Inr (up_avg', down_avg', out') \<Rightarrow> Inr out')"

text \<open>
  \<^verbatim>\<open>
  def atr(highs, lows, closes, period=14):
      trs=[]
      for i in range(1,len(closes)):
          tr = max(highs[i]-lows[i], abs(highs[i]-closes[i-1]), abs(lows[i]-closes[i-1]))
          trs.append(tr)
      return sma(trs, period)
  \<close>
\<close>

definition atr_step :: "real list \<Rightarrow> real list \<Rightarrow> real list \<Rightarrow> real list \<Rightarrow> nat \<Rightarrow> py_error + real list" where
  "atr_step highs lows closes trs i =
     (if i \<ge> length highs \<or> i \<ge> length lows then Inl IndexError
      else Inr (trs @ [max (max (highs ! i - lows ! i) \<bar>highs ! i - closes ! (i - 1)\<bar>)
                           \<bar>lows ! i - closes ! (i - 1)\<bar>]))"

definition atr :: "real list \<Rightarrow> real list \<Rightarrow> real list \<Rightarrow> int \<Rightarrow> py_error + real list" where
  "atr highs lows closes period =
     (case for_loop (atr_step highs lows closes) [1..<length closes] [] of
        Inl e \<Rightarrow> Inl e
      | Inr trs \<Rightarrow> sma trs period)"

subsection \<open>Records of the engine\<close>

text \<open>
  The dictionaries of the source with their keys as fields. A key that two kinds of
  dictionary share (\<^verbatim>\<open>time\<close>, \<^verbatim>\<open>entry\<close>) is read with its record's name in front.
  The \<^verbatim>\<open>equity_curve\<close> entry of the result is always \<^verbatim>\<open>None\<close> and is left out.
\<close>

record candle =
  time :: int
  open_price :: real
  high :: real
  low :: real
  close :: real
  volume :: real

record position =
  entry :: real
  qty :: real
  stop :: real
  entry_time :: int

record trade =
  time :: int
  symbol :: string
  entry :: real
  exit :: real
  profit :: real
  balance_after :: real
  reason :: string

record backtest_result =
  initial_balance :: real
  final_balance :: real
  trades :: "trade list"

text \<open>
  What the scan loop reads (the lists computed before it) and what it updates
  (\<open>equity\<close>, \<open>position\<close>, \<open>trades_bt\<close>).
\<close>

record series =
  closes :: "real list"
  lows :: "real list"
  volumes :: "real list"
  times :: "int list"
  ema_fast :: "real list"
  ema_slow :: "real list"
  rsi_list :: "real list"

record bt_state =
  equity :: real
  position :: "position option"
  trades_bt :: "trade list"

subsection \<open>The scan loop\<close>

text \<open>
  \<^verbatim>\<open>
  cross_up = (f_prev <= s_prev) and (f_now > s_now)
  cross_down = (f_prev >= s_prev) and (f_now < s_now)
  vol_ok = True
  if i>21:
      avg_vol = sum(volumes[i-21:i-1])/20.0
      vol_ok = volumes[i-1] > (avg_vol * VOLUME_MULTIPLIER)
  rsi_ok = (rsi_list[i-1] > 25 and rsi_list[i-1] < 75)
  \<close>
\<close>

definition cross_up :: "series \<Rightarrow> nat \<Rightarrow> bool" where
  "cross_up e i =
     (let f_now = ema_fast e ! (i - 1); f_prev = ema_fast e ! (i - 2);
          s_now = ema_slow e ! (i - 1); s_prev = ema_slow e ! (i - 2)
      in f_prev \<le> s_prev \<and> f_now > s_now)"

definition cross_down :: "series \<Rightarrow> nat \<Rightarrow> bool" where
  "cross_down e i =
     (let f_now = ema_fast e ! (i - 1); f_prev = ema_fast e ! (i - 2);
          s_now = ema_slow e ! (i - 1); s_prev = ema_slow e ! (i - 2)
      in f_prev \<ge> s_prev \<and> f_now < s_now)"

definition vol_ok :: "config \<Rightarrow> series \<Rightarrow> nat \<Rightarrow> bool" where
  "vol_ok cfg e i =
     (if i > 21 then
        (let avg_vol = sum_list (drop (i - 21) (take (i - 1) (volumes e))) / 20
         in volumes e ! (i - 1) > avg_vol * VOLUME_MULTIPLIER cfg)
      else True)"

definition rsi_ok :: "series \<Rightarrow> nat \<Rightarrow> bool" where
  "rsi_ok e i = (rsi_list e ! (i - 1) > 25 \<and> rsi_list e ! (i - 1) < 75)"

text \<open>
  The body of \<^verbatim>\<open>for i in range(2, len(closes)-1)\<close>. The first test is the
  \<^verbatim>\<open>continue\<close> of the source; past it, every list read is in range. The two sizing
  divisions raise on a zero divisor.
\<close>

definition bt_step :: "config \<Rightarrow> real \<Rightarrow> real \<Rightarrow> series \<Rightarrow> bt_state \<Rightarrow> nat \<Rightarrow> py_error + bt_state" where
  "bt_step cfg risk_per_trade stop_loss_pct e s i =
     (let price = closes e ! i in
      if i \<ge> length (ema_fast e) \<or> i \<ge> length (ema_slow e) \<or> i - 1 \<ge> length (rsi_list e)
      then Inr s
      else
        case position s of
          None \<Rightarrow>
            if cross_up e i \<and> vol_ok cfg e i \<and> rsi_ok e i then
              (let risk_amount = equity s * risk_per_trade;
                   stop_price = price * (1 - stop_loss_pct)
               in if stop_loss_pct \<le> 0 then
                    (if price = 0 then Inl ZeroDivisionError
                     else Inr (s\<lparr>position := Some
                       \<lparr>position.entry = price, qty = max (1 / 10 ^ 8) (equity s / price),
                        stop = stop_price, entry_time = times e ! i\<rparr>\<rparr>))
                  else
                    (if price * stop_loss_pct = 0 then Inl ZeroDivisionError
                     else Inr (s\<lparr>position := Some
                       \<lparr>position.entry = price, qty = max (1 / 10 ^ 8) (risk_amount / (price * stop_loss_pct)),
                        stop = stop_price, entry_time = times e ! i\<rparr>\<rparr>)))
            else Inr s
        | Some p \<Rightarrow>
            if lows e ! i \<le> stop p then
              (let exit_price = stop p;
                   proceeds = qty p * exit_price;
                   profit = proceeds - qty p * position.entry p
               in Inr \<lparr>equity = proceeds, position = None,
                       trades_bt = trades_bt s @
                         [\<lparr>time = times e ! i, symbol = '''', entry = position.entry p,
                           exit = exit_price, profit = profit, balance_after = proceeds,
                           reason = ''SL''\<rparr>]\<rparr>)
            else if cross_down e i then
              (let exit_price = price;
                   proceeds = qty p * exit_price;
                   profit = proceeds - qty p * position.entry p
               in Inr \<lparr>equity = proceeds, position = None,
                       trades_bt = trades_bt s @
                         [\<lparr>time = times e ! i, symbol = '''', entry = position.entry p,
                           exit = exit_price, profit = profit, balance_after = proceeds,
                           reason = ''X''\<rparr>]\<rparr>)
            else Inr s)"

text \<open>
  The lists \<open>run_backtest\<close> computes before the loop. \<^verbatim>\<open>atr_list\<close> is computed (so its
  exceptions count) and never read.
\<close>

definition mk_series :: "config \<Rightarrow> candle list \<Rightarrow> py_error + series" where
  "mk_series cfg candles =
     (let closes' = map close candles; highs' = map high candles; lows' = map low candles;
          volumes' = map volume candles; times' = map candle.time candles
      in case ema closes' (EMA_FAST cfg) of Inl err \<Rightarrow> Inl err | Inr ema_fast' \<Rightarrow>
        (case ema closes' (EMA_SLOW cfg) of Inl err \<Rightarrow> Inl err | Inr ema_slow' \<Rightarrow>
        (case rsi closes' (RSI_PERIOD cfg) of Inl err \<Rightarrow> Inl err | Inr rsi_list' \<Rightarrow>
        (case (if length closes' > 20 then atr highs' lows' closes' 14
               else Inr (replicate (length closes') 0)) of Inl err \<Rightarrow> Inl err | Inr atr_list \<Rightarrow>
           Inr \<lparr>closes = closes', lows = lows', volumes = volumes', times = times',
                ema_fast = ema_fast', ema_slow = ema_slow', rsi_list = rsi_list'\<rparr>))))"

text \<open>
  \<^verbatim>\<open>run_backtest(candles, initial_balance, risk_per_trade, stop_loss_pct)\<close>: the loop
  runs over \<^verbatim>\<open>range(2, len(closes)-1)\<close> from \<open>equity = initial_balance\<close>,
  \<open>position = None\<close>, \<open>trades_bt = []\<close>.
\<close>

definition run_backtest :: "config \<Rightarrow> candle list \<Rightarrow> real \<Rightarrow> real \<Rightarrow> real \<Rightarrow> py_error + backtest_result" where
  "run_backtest cfg candles initial risk_per_trade stop_loss_pct =
     (case mk_series cfg candles of
        Inl err \<Rightarrow> Inl err
      | Inr e \<Rightarrow>
         (case for_loop (bt_step cfg risk_per_trade stop_loss_pct e)
                 [2..<length (closes e) - 1]
                 \<lparr>equity = initial, position = None, trades_bt = []\<rparr> of
            Inl err \<Rightarrow> Inl err
          | Inr s \<Rightarrow> Inr \<lparr>initial_balance = initial, final_balance = equity s,
                          trades = trades_bt s\<rparr>))"

section \<open>Notions used in the statements and proofs\<close>

subsection \<open>Parts of the scan loop\<close>

text \<open>
  \<open>skipped\<close> is the test of the \<^verbatim>\<open>continue\<close> at the head of the loop body,
  \<open>opened\<close> the position the entry branch creates, \<open>closed_trade\<close> the ledger entry an
  exit branch appends.
\<close>

definition skipped :: "series \<Rightarrow> nat \<Rightarrow> bool" where
  "skipped e i \<longleftrightarrow>
     i \<ge> length (ema_fast e) \<or> i \<ge> length (ema_slow e) \<or> i - 1 \<ge> length (rsi_list e)"

definition opened :: "real \<Rightarrow> real \<Rightarrow> series \<Rightarrow> bt_state \<Rightarrow> nat \<Rightarrow> position" where
  "opened risk_per_trade stop_loss_pct e s i =
     \<lparr>position.entry = closes e ! i,
      qty = max (1 / 10 ^ 8)
              (if stop_loss_pct \<le> 0 then equity s / closes e ! i
               else equity s * risk_per_trade / (closes e ! i * stop_loss_pct)),
      stop = closes e ! i * (1 - stop_loss_pct), entry_time = times e ! i\<rparr>"

definition closed_trade :: "series \<Rightarrow> nat \<Rightarrow> position \<Rightarrow> real \<Rightarrow> string \<Rightarrow> trade" where
  "closed_trade e i p exit_price why =
     \<lparr>time = times e ! i, symbol = '''', entry = position.entry p, exit = exit_price,
      profit = qty p * exit_price - qty p * position.entry p,
      balance_after = qty p * exit_price, reason = why\<rparr>"

text \<open>
  \<open>last_balance initial ts\<close> is the balance after the ledger \<open>ts\<close>: that of its last
  trade, or the initial balance when it is empty.
\<close>

definition last_balance :: "real \<Rightarrow> trade list \<Rightarrow> real" where
  "last_balance initial ts = (if ts = [] then initial else balance_after (last ts))"

subsection \<open>Example inputs\<close>

text \<open>
  \<open>bar c l v\<close> is a candle that opens, peaks and closes at \<open>c\<close>, with low \<open>l\<close> and
  volume \<open>v\<close>. The \<open>demo\<close> run enters at index 2 and is stopped out at index 3; the
  \<open>exit\<close> candles give a downward crossover at index 2; the \<open>skip\<close> run has a negative
  RSI period, which makes the RSI list shorter than the candle list; the \<open>volume\<close>
  candles are long enough for the volume filter to apply.
\<close>

definition bar :: "real \<Rightarrow> real \<Rightarrow> real \<Rightarrow> candle" where
  "bar c l v = \<lparr>candle.time = 0, open_price = c, high = c, low = l, close = c, volume = v\<rparr>"

definition demo_config :: config where
  "demo_config = \<lparr>EMA_FAST = 1, EMA_SLOW = 3, RSI_PERIOD = 1, VOLUME_MULTIPLIER = 1\<rparr>"

definition demo_candles :: "candle list" where
  "demo_candles = [bar 1 1 1, bar 2 2 1, bar 3 3 1, bar 3 (1 / 2) 1, bar 1 1 1]"

definition demo_series :: series where
  "demo_series = \<lparr>closes = [1, 2, 3, 3, 1], lows = [1, 2, 3, 1 / 2, 1],
        volumes = [1, 1, 1, 1, 1], times = [0, 0, 0, 0, 0],
        ema_fast = [1, 2, 3, 3, 1],
        ema_slow = [1, 3 / 2, 9 / 4, 21 / 8, 29 / 16],
        rsi_list = [50, 50, 100000000000000 / 1000000000001, 0, 0]\<rparr>"

definition demo_position :: position where
  "demo_position = \<lparr>position.entry = 3, qty = 20 / 3, stop = 297 / 100, entry_time = 0\<rparr>"

definition demo_flat :: bt_state where
  "demo_flat = \<lparr>equity = 10, position = None, trades_bt = []\<rparr>"

definition demo_holding :: bt_state where
  "demo_holding = \<lparr>equity = 10, position = Some demo_position, trades_bt = []\<rparr>"

definition demo_trade :: trade where
  "demo_trade = \<lparr>time = 0, symbol = '''', entry = 3, exit = 297 / 100, profit = - (1 / 5),
                  balance_after = 99 / 5, reason = ''SL''\<rparr>"

definition demo_closed :: bt_state where
  "demo_closed = \<lparr>equity = 99 / 5, position = None, trades_bt = [demo_trade]\<rparr>"

definition demo_result :: backtest_result where
  "demo_result = \<lparr>initial_balance = 10, final_balance = 99 / 5, trades = [demo_trade]\<rparr>"

definition exit_candles :: "candle list" where
  "exit_candles = [bar 2 2 1, bar 1 1 1, bar 1 1 1, bar 1 1 1]"

definition exit_series :: series where
  "exit_series = \<lparr>closes = [2, 1, 1, 1], lows = [2, 1, 1, 1], volumes = [1, 1, 1, 1],
        times = [0, 0, 0, 0], ema_fast = [2, 1, 1, 1],
        ema_slow = [2, 3 / 2, 5 / 4, 9 / 8], rsi_list = [50, 50, 0, 0]\<rparr>"

definition exit_position :: position where
  "exit_position = \<lparr>position.entry = 2, qty = 1, stop = 1 / 2, entry_time = 0\<rparr>"

definition exit_holding :: bt_state where
  "exit_holding = \<lparr>equity = 10, position = Some exit_position, trades_bt = []\<rparr>"

definition exit_trade :: trade where
  "exit_trade = \<lparr>time = 0, symbol = '''', entry = 2, exit = 1, profit = - 1,
                  balance_after = 1, reason = ''X''\<rparr>"

definition skip_config :: config where
  "skip_config = \<lparr>EMA_FAST = 1, EMA_SLOW = 3, RSI_PERIOD = - 2, VOLUME_MULTIPLIER = 1\<rparr>"

definition skip_candles :: "candle list" where
  "skip_candles = [bar 1 1 1, bar 2 2 1, bar 1 1 1, bar 1 (1 / 2) 1, bar 1 1 1]"

definition skip_series :: series where
  "skip_series = \<lparr>closes = [1, 2, 1, 1, 1], lows = [1, 2, 1, 1 / 2, 1],
        volumes = [1, 1, 1, 1, 1], times = [0, 0, 0, 0, 0],
        ema_fast = [1, 2, 1, 1, 1],
        ema_slow = [1, 3 / 2, 5 / 4, 9 / 8, 17 / 16],
        rsi_list = [75000000000000 / 1499999999999, 112500000000000 / 2249999999999]\<rparr>"

definition skip_position :: position where
  "skip_position = \<lparr>position.entry = 1, qty = 20, stop = 99 / 100, entry_time = 0\<rparr>"

definition skip_holding :: bt_state where
  "skip_holding = \<lparr>equity = 10, position = Some skip_position, trades_bt = []\<rparr>"

definition volume_candles :: "candle list" where
  "volume_candles = map (bar 1 1) (replicate 21 1 @ [3, 1, 1])"

section \<open>Properties of the loops\<close>

subsection \<open>Loops that may raise\<close>

lemma for_loop_invariant:
  assumes "for_loop body xs s = Inr s'" and "I s"
    and "\<And>t x t'. I t \<Longrightarrow> x \<in> set xs \<Longrightarrow> body t x = Inr t' \<Longrightarrow> I t'"
  shows "I s'"
  using assms
proof (induction xs arbitrary: s)
  case Nil
  then show ?case by simp
next
  case (Cons x xs)
  from Cons.prems(1) obtain t where t: "body s x = Inr t" and rest: "for_loop body xs t = Inr s'"
    by (auto split: sum.splits)
  have "I t" using Cons.prems(2) Cons.prems(3) [of s x t] t by simp
  moreover have "I u'" if "I u" "y \<in> set xs" "body u y = Inr u'" for u y u'
    using Cons.prems(3) [of u y u'] that by simp
  ultimately show ?case using Cons.IH [OF rest] by blast
qed

lemma for_loop_returns:
  assumes "\<And>t x. x \<in> set xs \<Longrightarrow> \<exists>t'. body t x = Inr t'"
  shows "\<exists>s'. for_loop body xs s = Inr s'"
  using assms
proof (induction xs arbitrary: s)
  case Nil
  then show ?case by simp
next
  case (Cons x xs)
  from Cons.prems [of x s] obtain t where t: "body s x = Inr t" by auto
  have "\<exists>s'. for_loop body xs t = Inr s'"
    by (rule Cons.IH) (simp add: Cons.prems)
  then show ?case using t by simp
qed

subsection \<open>Ints that convert to floats\<close>

lemma float_overflow_small: "\<bar>n\<bar> < 2 ^ 63 \<Longrightarrow> \<not> float_overflow n"
proof -
  assume n: "\<bar>n\<bar> < 2 ^ 63"
  have "(2::int) ^ 63 \<le> 2 ^ 970" by (rule power_increasing) simp_all
  moreover have "(2::int) * 2 ^ 970 \<le> 2 ^ 1024"
  proof -
    have "(2::int) ^ 971 \<le> 2 ^ 1024" by (rule power_increasing) simp_all
    moreover have "(2::int) ^ 971 = 2 * 2 ^ 970"
      using power_Suc [of "2::int" 970] by simp
    ultimately show ?thesis by simp
  qed
  ultimately have "\<bar>n\<bar> < 2 ^ 1024 - 2 ^ 970" using n by linarith
  then show ?thesis by (simp add: float_overflow_def)
qed

lemma float_overflow_large: "float_overflow (2 ^ 1024)"
proof -
  have "(0::int) \<le> 2 ^ 970" by simp
  then have "(2::int) ^ 1024 - 2 ^ 970 \<le> \<bar>2 ^ 1024\<bar>" by linarith
  then show ?thesis by (simp only: float_overflow_def)
qed

subsection \<open>Exponential moving average\<close>

lemma length_ema_loop: "length (foldl (ema_body a) acc vs) = length acc + length vs"
  by (induction vs arbitrary: acc) (simp_all add: ema_body_def)

lemma ema_loop_prefix: "i < length acc \<Longrightarrow> foldl (ema_body a) acc vs ! i = acc ! i"
  by (induction vs arbitrary: acc) (simp_all add: ema_body_def nth_append)

lemma ema_loop_nth:
  assumes "acc \<noteq> []" and "j < length vs"
  shows "foldl (ema_body a) acc vs ! (length acc + j) =
           (vs ! j - foldl (ema_body a) acc vs ! (length acc + j - 1)) * a
             + foldl (ema_body a) acc vs ! (length acc + j - 1)"
  using assms(2)
proof (induction vs arbitrary: j rule: rev_induct)
  case Nil
  then show ?case by simp
next
  case (snoc v vs)
  let ?R = "foldl (ema_body a) acc vs"
  have len: "length ?R = length acc + length vs" by (rule length_ema_loop)
  have ne: "?R \<noteq> []" using len assms(1) by auto
  have step: "foldl (ema_body a) acc (vs @ [v]) = ?R @ [(v - last ?R) * a + last ?R]"
    by (simp add: ema_body_def)
  show ?case
  proof (cases "j < length vs")
    case True
    then have "length acc + j < length ?R" "length acc + j - 1 < length ?R"
      using len by simp_all
    then show ?thesis using snoc.IH [OF True] True
      unfolding step by (simp add: nth_append)
  next
    case False
    with snoc.prems have j: "j = length vs" by simp
    have "last ?R = ?R ! (length acc + length vs - 1)"
      using ne len by (simp add: last_conv_nth)
    then show ?thesis using j len assms(1)
      unfolding step by (simp add: nth_append)
  qed
qed

lemma ema_recurrence:
  assumes "span' \<noteq> - 1" and "\<not> float_overflow (span' + 1)"
  shows "\<exists>out. ema values span' = Inr out \<and> length out = length values \<and>
         (values \<noteq> [] \<longrightarrow> out ! 0 = values ! 0) \<and>
         (\<forall>i. 1 \<le> i \<and> i < length values \<longrightarrow>
            out ! i = (values ! i - out ! (i - 1)) * (2 / real_of_int (span' + 1)) + out ! (i - 1))"
proof (cases "values")
  case Nil
  then show ?thesis by (simp add: ema_def)
next
  case (Cons v0 vs)
  let ?a = "2 / real_of_int (span' + 1)"
  let ?R = "foldl (ema_body ?a) [v0] vs"
  have len: "length ?R = Suc (length vs)" by (simp add: length_ema_loop)
  have hd0: "?R ! 0 = v0" using ema_loop_prefix [of 0 "[v0]" ?a vs] by simp
  have rec: "?R ! i = (values ! i - ?R ! (i - 1)) * ?a + ?R ! (i - 1)"
    if "1 \<le> i" "i < length values" for i
  proof -
    from that obtain j where j: "i = Suc j" "j < length vs"
      using Cons by (cases i) auto
    show ?thesis using ema_loop_nth [of "[v0]" j vs ?a] j Cons by simp
  qed
  have "span' + 1 \<noteq> 0" using assms(1) by simp
  then have "ema values span' = Inr ?R"
    using assms(2) by (simp add: ema_def Cons Let_def)
  then show ?thesis using len hd0 rec Cons by auto
qed

lemma ema_empty_iff: "ema values span' = Inr [] \<longleftrightarrow> values = []"
proof (cases "values")
  case Nil
  then show ?thesis by (simp add: ema_def)
next
  case (Cons v0 vs)
  have "length (foldl (ema_body a) [v0] vs) = Suc (length vs)" for a
    by (simp add: length_ema_loop)
  then have "foldl (ema_body a) [v0] vs \<noteq> []" for a by (metis length_0_conv nat.distinct(1))
  then show ?thesis by (simp add: ema_def Cons Let_def)
qed

lemma ema_raises: "values \<noteq> [] \<Longrightarrow> ema values (- 1) = Inl ZeroDivisionError"
  using float_overflow_small [of 0] by (cases "values") (simp_all add: ema_def)

lemma ema_overflows:
  "float_overflow (span' + 1) \<Longrightarrow> values \<noteq> [] \<Longrightarrow> ema values span' = Inl OverflowError"
  by (cases "values") (simp_all add: ema_def)

lemma ema_returns:
  assumes "span' \<noteq> - 1" and "\<not> float_overflow (span' + 1)"
  shows "\<exists>out. ema values span' = Inr out \<and> length out = length values"
  using ema_recurrence [OF assms, of "values"] by blast

lemma ema_length:
  assumes "ema values span' = Inr out"
  shows "length out = length values"
  using assms
  by (cases "values") (auto simp: ema_def Let_def length_ema_loop split: if_splits)

subsection \<open>Sums of slices\<close>

lemma sum_list_slice:
  assumes "b \<le> length xs"
  shows "sum_list (drop a (take b xs)) = (\<Sum>j = a..<b. (xs ! j :: real))"
proof (cases "a \<le> b")
  case True
  have "sum_list (drop a (take b xs)) = (\<Sum>j = 0..<b - a. drop a (take b xs) ! j)"
    using assms by (simp add: sum_list_sum_nth)
  also have "\<dots> = (\<Sum>j = 0..<b - a. xs ! (j + a))"
    using assms by (intro sum.cong) (simp_all add: add.commute)
  also have "\<dots> = (\<Sum>j = 0 + a..<(b - a) + a. xs ! j)"
    by (rule sum.shift_bounds_nat_ivl [symmetric])
  finally show ?thesis using True by simp
next
  case False
  then show ?thesis by simp
qed

subsection \<open>Simple moving average\<close>

lemma sma_returns:
  assumes "1 \<le> period" and "\<not> float_overflow period"
  shows "\<exists>out. sma values period = Inr out"
proof -
  have "\<exists>t'. sma_step values period t x = Inr t'"
    if "x \<in> set (zip [0..<length values] values)" for t x
  proof -
    obtain s out where t: "t = (s, out)" by (cases t)
    obtain i v where x: "x = (i, v)" by (cases x)
    have "i \<in> set [0..<length values]" using that unfolding x by (rule set_zip_leftD)
    then have i: "i < length values" by simp
    have r: "\<not> length values \<le> nat (int i - period)" using i assms(1) by linarith
    have z: "period \<noteq> 0" using assms(1) by simp
    show ?thesis using r z assms(2) by (simp add: sma_step_def t x Let_def)
  qed
  then have "\<exists>r. for_loop (sma_step values period) (zip [0..<length values] values) (0, []) = Inr r"
    by (rule for_loop_returns)
  then obtain r where
    r: "for_loop (sma_step values period) (zip [0..<length values] values) (0, []) = Inr r"
    by blast
  show ?thesis by (cases r) (simp add: sma_def r)
qed

subsection \<open>Relative strength index\<close>

lemma avg_nonneg: "0 < p \<Longrightarrow> 0 \<le> q \<Longrightarrow> 0 \<le> u \<Longrightarrow> 0 \<le> a \<Longrightarrow> 0 \<le> (u * q + a) / (p::real)"
  by simp

lemma eps_pos: "0 \<le> (d::real) \<Longrightarrow> 0 < d + 1 / 10 ^ 12"
  by (rule add_nonneg_pos) simp_all

lemma rsi_step_eq:
  assumes "\<not> float_overflow (period - 1)" and "\<not> float_overflow period" and "period \<noteq> 0"
    and "(d * real_of_int (period - 1) + b) / real_of_int period + 1 / 10 ^ 12 \<noteq> 0"
    and "1 + (u * real_of_int (period - 1) + a) / real_of_int period /
            ((d * real_of_int (period - 1) + b) / real_of_int period + 1 / 10 ^ 12) \<noteq> 0"
  shows "rsi_step period (u, d, out) (a, b) =
     Inr ((u * real_of_int (period - 1) + a) / real_of_int period,
          (d * real_of_int (period - 1) + b) / real_of_int period,
          out @ [100 - 100 / (1 + (u * real_of_int (period - 1) + a) / real_of_int period /
            ((d * real_of_int (period - 1) + b) / real_of_int period + 1 / 10 ^ 12))])"
  unfolding rsi_step_def Let_def prod.case using assms by (simp only: if_False simp_thms)

lemma rsi_step_returns:
  assumes p: "1 \<le> period" and small: "period < 2 ^ 63"
    and u: "0 \<le> u" and d: "0 \<le> d" and a: "0 \<le> a" and b: "0 \<le> b"
  shows "\<exists>u' d' out'. rsi_step period (u, d, out) (a, b) = Inr (u', d', out') \<and>
           0 \<le> u' \<and> 0 \<le> d'"
proof -
  define u' where "u' = (u * real_of_int (period - 1) + a) / real_of_int period"
  define d' where "d' = (d * real_of_int (period - 1) + b) / real_of_int period"
  define rs where "rs = u' / (d' + 1 / 10 ^ 12)"
  have rp: "0 < real_of_int period" "0 \<le> real_of_int (period - 1)" using p by simp_all
  have u0: "0 \<le> u'" unfolding u'_def using rp u a by (rule avg_nonneg)
  have d0: "0 \<le> d'" unfolding d'_def using rp d b by (rule avg_nonneg)
  have den: "0 < d' + 1 / 10 ^ 12" using d0 by (rule eps_pos)
  have rs0: "0 \<le> rs" unfolding rs_def using u0 den by (rule divide_nonneg_pos)
  have one: "1 + rs \<noteq> 0" using rs0 by linarith
  have pne: "period \<noteq> 0" using p by simp
  have dne: "d' + 1 / 10 ^ 12 \<noteq> 0" using den by simp
  have f1: "\<not> float_overflow (period - 1)" using p small by (intro float_overflow_small) linarith
  have f2: "\<not> float_overflow period" using p small by (intro float_overflow_small) linarith
  have eq: "rsi_step period (u, d, out) (a, b) = Inr (u', d', out @ [100 - 100 / (1 + rs)])"
    unfolding u'_def d'_def rs_def
    by (rule rsi_step_eq [OF f1 f2 pne dne [unfolded d'_def] one [unfolded rs_def u'_def d'_def]])
  show ?thesis using eq u0 d0 by blast
qed

lemma rsi_loop_returns:
  assumes p: "1 \<le> period" and small: "period < 2 ^ 63"
  shows "0 \<le> u \<Longrightarrow> 0 \<le> d \<Longrightarrow> \<forall>ab\<in>set ds. 0 \<le> fst ab \<and> 0 \<le> snd ab \<Longrightarrow>
         \<exists>u' d' out'. for_loop (rsi_step period) ds (u, d, out) = Inr (u', d', out')"
proof (induction ds arbitrary: u d out)
  case Nil
  then show ?case by simp
next
  case (Cons ab ds)
  obtain a b where ab: "ab = (a, b)" by (cases ab)
  have "0 \<le> a" "0 \<le> b" using Cons.prems(3) ab by simp_all
  from rsi_step_returns [OF p small Cons.prems(1,2) this]
  obtain u' d' out' where st: "rsi_step period (u, d, out) (a, b) = Inr (u', d', out')"
    and inv: "0 \<le> u'" "0 \<le> d'" by blast
  have "\<forall>ab\<in>set ds. 0 \<le> fst ab \<and> 0 \<le> snd ab" using Cons.prems(3) by simp
  from Cons.IH [OF inv this] show ?case using st ab by simp
qed

lemma set_slice_from: "set (slice_from xs n) \<subseteq> set xs"
  by (auto simp: slice_from_def dest: in_set_dropD)

lemma set_slice_to: "set (slice_to xs n) \<subseteq> set xs"
  by (auto simp: slice_to_def dest: in_set_takeD)

lemma rsi_unfold:
  assumes "\<not> int (length values) < period + 1" and "period \<noteq> 0"
    and "\<not> float_overflow period" and "\<not> index_overflow (period + 1)"
  shows "rsi values period =
     (case for_loop (rsi_step period)
        (zip (slice_from (map (\<lambda>d. if d > 0 then d else 0)
                (map (\<lambda>i. values ! i - values ! (i - 1)) [1..<length values])) period)
             (slice_from (map (\<lambda>d. if d < 0 then - d else 0)
                (map (\<lambda>i. values ! i - values ! (i - 1)) [1..<length values])) period))
        (sum_list (slice_to (map (\<lambda>d. if d > 0 then d else 0)
                (map (\<lambda>i. values ! i - values ! (i - 1)) [1..<length values])) period)
           / real_of_int period,
         (if sum_list (slice_to (map (\<lambda>d. if d < 0 then - d else 0)
                (map (\<lambda>i. values ! i - values ! (i - 1)) [1..<length values])) period)
               / real_of_int period = 0 then 1 / 10 ^ 9
          else sum_list (slice_to (map (\<lambda>d. if d < 0 then - d else 0)
                (map (\<lambda>i. values ! i - values ! (i - 1)) [1..<length values])) period)
               / real_of_int period),
         replicate (nat (period + 1)) 50) of
        Inl e \<Rightarrow> Inl e
      | Inr (up_avg', down_avg', out') \<Rightarrow> Inr out')"
  unfolding rsi_def Let_def using assms by (simp only: if_False simp_thms)

lemma rsi_result_loop:
  assumes "rsi values period = Inr out" and "\<not> int (length values) < period + 1"
  shows "\<exists>u0 d0 u' d'.
     for_loop (rsi_step period)
        (zip (slice_from (map (\<lambda>d. if d > 0 then d else 0)
                (map (\<lambda>i. values ! i - values ! (i - 1)) [1..<length values])) period)
             (slice_from (map (\<lambda>d. if d < 0 then - d else 0)
                (map (\<lambda>i. values ! i - values ! (i - 1)) [1..<length values])) period))
        (u0, d0, replicate (nat (period + 1)) 50) = Inr (u', d', out)"
  using assms unfolding rsi_def Let_def
  by (auto split: if_splits sum.splits)

lemma rsi_returns:
  assumes "1 \<le> period" and "int (length values) < 2 ^ 63"
  shows "\<exists>out. rsi values period = Inr out"
proof (cases "int (length values) < period + 1")
  case True
  then show ?thesis by (simp add: rsi_def)
next
  case False
  define deltas where "deltas = map (\<lambda>i. values ! i - values ! (i - 1)) [1..<length values]"
  define ups where "ups = map (\<lambda>d::real. if d > 0 then d else 0) deltas"
  define downs where "downs = map (\<lambda>d::real. if d < 0 then - d else 0) deltas"
  define up_avg where "up_avg = sum_list (slice_to ups period) / real_of_int period"
  define x where "x = sum_list (slice_to downs period) / real_of_int period"
  define down_avg where "down_avg = (if x = 0 then 1 / 10 ^ 9 else x)"
  have small: "period < 2 ^ 63" using False assms(2) by linarith
  have ups0: "\<forall>y\<in>set ups. 0 \<le> y" by (auto simp: ups_def)
  have downs0: "\<forall>y\<in>set downs. 0 \<le> y" by (auto simp: downs_def)
  have rp: "0 < real_of_int period" using assms by simp
  have "0 \<le> sum_list (slice_to ups period)"
    using ups0 set_slice_to [of ups period] by (intro sum_list_nonneg) auto
  then have u0: "0 \<le> up_avg" using rp by (simp add: up_avg_def)
  have "0 \<le> sum_list (slice_to downs period)"
    using downs0 set_slice_to [of downs period] by (intro sum_list_nonneg) auto
  then have "0 \<le> x" using rp by (simp add: x_def)
  then have d0: "0 \<le> down_avg" by (simp add: down_avg_def)
  have ds: "\<forall>ab\<in>set (zip (slice_from ups period) (slice_from downs period)). 0 \<le> fst ab \<and> 0 \<le> snd ab"
  proof
    fix ab assume h: "ab \<in> set (zip (slice_from ups period) (slice_from downs period))"
    obtain a b where ab: "ab = (a, b)" by (cases ab)
    have "a \<in> set (slice_from ups period)" using h unfolding ab by (rule set_zip_leftD)
    moreover have "b \<in> set (slice_from downs period)" using h unfolding ab by (rule set_zip_rightD)
    ultimately have "fst ab \<in> set (slice_from ups period)" "snd ab \<in> set (slice_from downs period)"
      by (simp_all add: ab)
    then show "0 \<le> fst ab \<and> 0 \<le> snd ab"
      using ups0 downs0 set_slice_from [of ups period] set_slice_from [of downs period] by auto
  qed
  from rsi_loop_returns [OF assms(1) small u0 d0 ds]
  obtain u' d' out' where
    loop: "for_loop (rsi_step period) (zip (slice_from ups period) (slice_from downs period))
             (up_avg, down_avg, replicate (nat (period + 1)) 50) = Inr (u', d', out')"
    by blast
  have pne: "period \<noteq> 0" using assms by simp
  have f: "\<not> float_overflow period" using assms(1) small by (intro float_overflow_small) linarith
  have "- (2 ^ 63) \<le> period + 1" "period + 1 \<le> 2 ^ 63 - 1"
    using assms(1) False assms(2) by linarith+
  then have ix: "\<not> index_overflow (period + 1)" by (simp add: index_overflow_def)
  have "rsi values period = Inr out'"
    using loop unfolding rsi_unfold [OF False pne f ix] up_avg_def down_avg_def x_def ups_def downs_def deltas_def
    by simp
  then show ?thesis by blast
qed

lemma rsi_loop_length:
  "for_loop (rsi_step period) ds (u, d, out) = Inr (u', d', out') \<Longrightarrow>
   length out' = length out + length ds"
proof (induction ds arbitrary: u d out)
  case Nil
  then show ?case by simp
next
  case (Cons ab ds)
  obtain a b where ab: "ab = (a, b)" by (cases ab)
  from Cons.prems obtain u1 d1 out1 where
    st: "rsi_step period (u, d, out) (a, b) = Inr (u1, d1, out1)"
    and rest: "for_loop (rsi_step period) ds (u1, d1, out1) = Inr (u', d', out')"
    unfolding ab by (auto split: sum.splits)
  have "length out1 = Suc (length out)"
    using st by (auto simp: rsi_step_def Let_def split: if_splits)
  then show ?case using Cons.IH [OF rest] by simp
qed

lemma rsi_length:
  assumes "rsi values period = Inr out" and "0 \<le> period"
  shows "length out = length values"
proof (cases "int (length values) < period + 1")
  case True
  then show ?thesis using assms by (auto simp: rsi_def)
next
  case False
  define deltas where "deltas = map (\<lambda>i. values ! i - values ! (i - 1)) [1..<length values]"
  define ups where "ups = map (\<lambda>d::real. if d > 0 then d else 0) deltas"
  define downs where "downs = map (\<lambda>d::real. if d < 0 then - d else 0) deltas"
  have len: "length ups = length values - 1" "length downs = length values - 1"
    by (simp_all add: ups_def downs_def deltas_def)
  have zl: "length (zip (slice_from ups period) (slice_from downs period)) = length values - 1 - nat period"
    using assms(2) len by (simp add: slice_from_def)
  from rsi_result_loop [OF assms(1) False] obtain u0 d0 u' d' where
    "for_loop (rsi_step period) (zip (slice_from ups period) (slice_from downs period))
       (u0, d0, replicate (nat (period + 1)) 50) = Inr (u', d', out)"
    unfolding ups_def downs_def deltas_def by blast
  from rsi_loop_length [OF this] have "length out = nat (period + 1) + (length values - 1 - nat period)"
    using zl by simp
  then show ?thesis using False assms(2) by simp
qed

subsection \<open>The lists computed before the scan\<close>

lemma atr_returns:
  assumes "length hs = length cs" and "length ls = length cs"
  shows "\<exists>out. atr hs ls cs 14 = Inr out"
proof -
  have "\<exists>t'. atr_step hs ls cs t x = Inr t'" if "x \<in> set [1..<length cs]" for t x
    using that assms by (simp add: atr_step_def)
  then have "\<exists>trs. for_loop (atr_step hs ls cs) [1..<length cs] [] = Inr trs"
    by (rule for_loop_returns)
  moreover have "\<not> float_overflow 14" by (rule float_overflow_small) simp
  then have "\<exists>out. sma trs 14 = Inr out" for trs by (intro sma_returns) simp_all
  ultimately show ?thesis by (auto simp: atr_def)
qed

lemma mk_series_fields:
  assumes "mk_series cfg candles = Inr e"
  shows "closes e = map close candles" and "lows e = map low candles"
    and "volumes e = map volume candles" and "times e = map candle.time candles"
    and "ema (map close candles) (EMA_FAST cfg) = Inr (ema_fast e)"
    and "ema (map close candles) (EMA_SLOW cfg) = Inr (ema_slow e)"
    and "rsi (map close candles) (RSI_PERIOD cfg) = Inr (rsi_list e)"
  using assms by (auto simp: mk_series_def Let_def split: sum.splits)

lemma mk_series_returns:
  assumes "EMA_FAST cfg \<noteq> - 1" and "\<not> float_overflow (EMA_FAST cfg + 1)"
    and "EMA_SLOW cfg \<noteq> - 1" and "\<not> float_overflow (EMA_SLOW cfg + 1)"
    and "1 \<le> RSI_PERIOD cfg" and "int (length candles) < 2 ^ 63"
  shows "\<exists>e. mk_series cfg candles = Inr e"
proof -
  obtain f where f: "ema (map close candles) (EMA_FAST cfg) = Inr f"
    using ema_returns [OF assms(1,2)] by blast
  obtain g where g: "ema (map close candles) (EMA_SLOW cfg) = Inr g"
    using ema_returns [OF assms(3,4)] by blast
  obtain r where r: "rsi (map close candles) (RSI_PERIOD cfg) = Inr r"
    using rsi_returns [OF assms(5), of "map close candles"] assms(6) by auto
  obtain a where a: "atr (map high candles) (map low candles) (map close candles) 14 = Inr a"
    using atr_returns [of "map high candles" "map close candles" "map low candles"] by auto
  show ?thesis by (simp add: mk_series_def Let_def f g r a)
qed

lemma mk_series_not_skipped:
  assumes "mk_series cfg candles = Inr e" and "0 \<le> RSI_PERIOD cfg"
    and "i \<in> set [2..<length candles - 1]"
  shows "\<not> skipped e i"
proof -
  have "length (ema_fast e) = length candles" "length (ema_slow e) = length candles"
    using mk_series_fields(5,6) [OF assms(1)] ema_length by fastforce+
  moreover have "length (rsi_list e) = length candles"
    using rsi_length [OF mk_series_fields(7) [OF assms(1)] assms(2)] by simp
  moreover have "2 \<le> i \<and> i < length candles - 1" using assms(3) by simp
  then have "i < length candles" "i - 1 < length candles" by arith+
  ultimately show ?thesis by (simp add: skipped_def)
qed

subsection \<open>One step of the scan\<close>

lemma bt_step_skipped:
  "skipped e i \<Longrightarrow> bt_step cfg risk_per_trade stop_loss_pct e s i = Inr s"
  unfolding bt_step_def skipped_def Let_def by (simp only: if_True)

lemma bt_step_flat:
  assumes "\<not> skipped e i" and "position s = None"
  shows "bt_step cfg risk_per_trade stop_loss_pct e s i =
     (if cross_up e i \<and> vol_ok cfg e i \<and> rsi_ok e i then
        (if closes e ! i = 0 \<or> (0 < stop_loss_pct \<and> closes e ! i * stop_loss_pct = 0)
         then Inl ZeroDivisionError
         else Inr (s\<lparr>position := Some (opened risk_per_trade stop_loss_pct e s i)\<rparr>))
      else Inr s)"
proof -
  have g: "(i \<ge> length (ema_fast e) \<or> i \<ge> length (ema_slow e) \<or> i - 1 \<ge> length (rsi_list e)) = False"
    using assms(1) by (simp add: skipped_def)
  show ?thesis
    unfolding bt_step_def Let_def g assms(2) opened_def
    by (cases "stop_loss_pct \<le> 0") (simp_all add: not_le)
qed

lemma bt_step_holding:
  assumes "\<not> skipped e i" and "position s = Some p"
  shows "bt_step cfg risk_per_trade stop_loss_pct e s i =
     (if lows e ! i \<le> stop p then
        Inr \<lparr>equity = qty p * stop p, position = None,
             trades_bt = trades_bt s @ [closed_trade e i p (stop p) ''SL'']\<rparr>
      else if cross_down e i then
        Inr \<lparr>equity = qty p * closes e ! i, position = None,
             trades_bt = trades_bt s @ [closed_trade e i p (closes e ! i) ''X'']\<rparr>
      else Inr s)"
proof -
  have g: "(i \<ge> length (ema_fast e) \<or> i \<ge> length (ema_slow e) \<or> i - 1 \<ge> length (rsi_list e)) = False"
    using assms(1) by (simp add: skipped_def)
  show ?thesis
    unfolding bt_step_def Let_def g assms(2) closed_trade_def
    by simp
qed

text \<open>The four things a step of the loop can do.\<close>

lemma bt_step_cases:
  assumes "bt_step cfg risk_per_trade stop_loss_pct e s i = Inr s'"
  obtains (idle) "s' = s"
  | (enter) "position s = None" "closes e ! i \<noteq> 0"
      "s' = s\<lparr>position := Some (opened risk_per_trade stop_loss_pct e s i)\<rparr>"
  | (stop_hit) p where "position s = Some p" "lows e ! i \<le> stop p"
      "s' = \<lparr>equity = qty p * stop p, position = None,
             trades_bt = trades_bt s @ [closed_trade e i p (stop p) ''SL'']\<rparr>"
  | (signal_exit) p where "position s = Some p" "\<not> lows e ! i \<le> stop p" "cross_down e i"
      "s' = \<lparr>equity = qty p * closes e ! i, position = None,
             trades_bt = trades_bt s @ [closed_trade e i p (closes e ! i) ''X'']\<rparr>"
proof (cases "skipped e i")
  case True
  then have "s' = s" using assms by (simp add: bt_step_skipped)
  then show ?thesis by (rule idle)
next
  case False
  show ?thesis
  proof (cases "position s")
    case None
    note eq = bt_step_flat [OF False None, of cfg risk_per_trade stop_loss_pct]
    show ?thesis
    proof (cases "cross_up e i \<and> vol_ok cfg e i \<and> rsi_ok e i")
      case True
      then have ok: "closes e ! i \<noteq> 0"
        and s': "s' = s\<lparr>position := Some (opened risk_per_trade stop_loss_pct e s i)\<rparr>"
        using assms unfolding eq by (simp_all split: if_splits)
      show ?thesis using None ok s' by (rule enter)
    next
      case False
      then have "s' = s" using assms unfolding eq by (simp only: if_False sum.inject)
      then show ?thesis by (rule idle)
    qed
  next
    case (Some p)
    note eq = bt_step_holding [OF False Some, of cfg risk_per_trade stop_loss_pct]
    consider (a) "lows e ! i \<le> stop p" | (b) "\<not> lows e ! i \<le> stop p" "cross_down e i"
      | (c) "\<not> lows e ! i \<le> stop p" "\<not> cross_down e i" by blast
    then show ?thesis
    proof cases
      case a
      then have "s' = \<lparr>equity = qty p * stop p, position = None,
             trades_bt = trades_bt s @ [closed_trade e i p (stop p) ''SL'']\<rparr>"
        using assms unfolding eq by simp
      with Some a show ?thesis by (rule stop_hit)
    next
      case b
      then have "s' = \<lparr>equity = qty p * closes e ! i, position = None,
             trades_bt = trades_bt s @ [closed_trade e i p (closes e ! i) ''X'']\<rparr>"
        using assms unfolding eq by simp
      with Some b show ?thesis by (rule signal_exit)
    next
      case c
      then have "s' = s" using assms unfolding eq by simp
      then show ?thesis by (rule idle)
    qed
  qed
qed

lemma bt_step_frame:
  assumes "bt_step cfg risk_per_trade stop_loss_pct e s i = Inr s'"
  shows "(position s = None \<longrightarrow> equity s' = equity s \<and> trades_bt s' = trades_bt s) \<and>
         (\<forall>p. position s = Some p \<longrightarrow>
            (position s' = Some p \<and> equity s' = equity s \<and> trades_bt s' = trades_bt s) \<or>
            (position s' = None \<and>
             (\<exists>t. trades_bt s' = trades_bt s @ [t] \<and> trade.entry t = position.entry p \<and>
                  (exit t = stop p \<and> reason t = ''SL'' \<or>
                   exit t = closes e ! i \<and> reason t = ''X'') \<and>
                  equity s' = qty p * exit t \<and>
                  profit t = qty p * exit t - qty p * position.entry p \<and>
                  balance_after t = equity s')))"
  using assms
proof (cases rule: bt_step_cases)
  case idle
  then show ?thesis by simp
next
  case enter
  then show ?thesis by simp
next
  case (stop_hit p)
  then show ?thesis by (simp add: closed_trade_def)
next
  case (signal_exit p)
  then show ?thesis by (simp add: closed_trade_def)
qed

subsection \<open>Invariants of the scan\<close>

lemma last_balance_append: "last_balance initial (ts @ [t]) = balance_after t"
  by (simp add: last_balance_def)

lemma equity_last_balance_step:
  assumes "bt_step cfg risk_per_trade stop_loss_pct e s i = Inr s'"
    and "equity s = last_balance initial (trades_bt s)"
  shows "equity s' = last_balance initial (trades_bt s')"
  using assms(1)
proof (cases rule: bt_step_cases)
  case idle
  then show ?thesis using assms(2) by simp
next
  case enter
  then show ?thesis using assms(2) by simp
next
  case (stop_hit p)
  then show ?thesis by (simp add: last_balance_append closed_trade_def)
next
  case (signal_exit p)
  then show ?thesis by (simp add: last_balance_append closed_trade_def)
qed

lemma run_backtest_loop:
  assumes "run_backtest cfg candles initial risk_per_trade stop_loss_pct = Inr res"
  obtains e s where "mk_series cfg candles = Inr e"
    and "for_loop (bt_step cfg risk_per_trade stop_loss_pct e) [2..<length (closes e) - 1]
           \<lparr>equity = initial, position = None, trades_bt = []\<rparr> = Inr s"
    and "res = \<lparr>initial_balance = initial, final_balance = equity s, trades = trades_bt s\<rparr>"
  using assms by (auto simp: run_backtest_def split: sum.splits)

lemma final_balance_last_close:
  assumes "run_backtest cfg candles initial risk_per_trade stop_loss_pct = Inr res"
  shows "initial_balance res = initial \<and> final_balance res = last_balance initial (trades res)"
proof -
  from assms obtain e s where
    loop: "for_loop (bt_step cfg risk_per_trade stop_loss_pct e) [2..<length (closes e) - 1]
           \<lparr>equity = initial, position = None, trades_bt = []\<rparr> = Inr s"
    and res: "res = \<lparr>initial_balance = initial, final_balance = equity s, trades = trades_bt s\<rparr>"
    by (rule run_backtest_loop)
  have "equity \<lparr>equity = initial, position = None, trades_bt = []\<rparr> =
        last_balance initial (trades_bt \<lparr>equity = initial, position = None, trades_bt = []\<rparr>)"
    by (simp add: last_balance_def)
  with loop have "equity s = last_balance initial (trades_bt s)"
    by (rule for_loop_invariant) (rule equity_last_balance_step)
  then show ?thesis by (simp add: res)
qed

lemma short_run:
  assumes "length candles < 4" and "mk_series cfg candles = Inr e"
  shows "run_backtest cfg candles initial risk_per_trade stop_loss_pct =
           Inr \<lparr>initial_balance = initial, final_balance = initial, trades = []\<rparr>"
proof -
  have "length (closes e) = length candles" using mk_series_fields(1) [OF assms(2)] by simp
  then have "length (closes e) - Suc 0 \<le> 2" using assms(1) by simp
  then show ?thesis by (simp add: run_backtest_def assms(2))
qed

subsection \<open>The example runs\<close>

lemma demo_mk_series: "mk_series demo_config demo_candles = Inr demo_series"
  by code_simp

lemma demo_enter: "bt_step demo_config (2 / 100) (1 / 100) demo_series demo_flat 2 = Inr demo_holding"
  by code_simp

lemma demo_stop: "bt_step demo_config (2 / 100) (1 / 100) demo_series demo_holding 3 = Inr demo_closed"
  by code_simp

lemma demo_run: "run_backtest demo_config demo_candles 10 (2 / 100) (1 / 100) = Inr demo_result"
  by code_simp

lemma exit_mk_series: "mk_series demo_config exit_candles = Inr exit_series"
  by code_simp

section \<open>The claims\<close>

text \<open>
  \<^bold>\<open>C2\<close> (single position). The position of the engine is either \<open>None\<close> or one
  position record. A step of the scan loop taken while a position is held leaves that same
  position or none; a step after which a new position is held started from the flat state.
  This holds for every state and index, so for every index of every run.
\<close>

theorem single_position:
  assumes "bt_step cfg risk_per_trade stop_loss_pct e s i = Inr s'"
  shows "(\<forall>p. position s = Some p \<longrightarrow> position s' = Some p \<or> position s' = None) \<and>
         (position s' \<noteq> None \<and> position s' \<noteq> position s \<longrightarrow> position s = None)"
  using assms by (cases rule: bt_step_cases) auto

theorem single_position_witness:
  "bt_step demo_config (2 / 100) (1 / 100) demo_series demo_flat 2 = Inr demo_holding \<and>
   position demo_holding \<noteq> None \<and> position demo_holding \<noteq> position demo_flat \<and>
   position demo_flat = None \<and>
   bt_step demo_config (2 / 100) (1 / 100) demo_series demo_holding 3 = Inr demo_closed \<and>
   position demo_holding = Some demo_position \<and>
   (position demo_closed = Some demo_position \<or> position demo_closed = None)"
  using single_position [OF demo_enter] single_position [OF demo_stop] demo_enter demo_stop
  by (simp add: demo_holding_def demo_flat_def demo_closed_def)

text \<open>
  \<^bold>\<open>C3\<close> (equity frame rule). A step of the scan loop from the flat state changes
  neither the equity nor the ledger. A step taken with a position \<open>p\<close> held either
  keeps \<open>p\<close> and changes neither the equity nor the ledger, or closes \<open>p\<close>; and
  whenever it closes \<open>p\<close> it appends exactly one trade, whose exit price is the stop
  (reason \<^verbatim>\<open>SL\<close>) or the close of the bar (reason \<^verbatim>\<open>X\<close>), sets the equity to
  \<open>qty * exit\<close>, and records \<open>profit = qty * exit - qty * entry\<close> and the new equity as
  \<open>balance_after\<close>. The final balance of a run is the balance after the last trade of
  the ledger, or the initial balance when the ledger is empty; a position still open at
  the end contributes nothing.
\<close>

theorem equity_frame_rule:
  "(bt_step cfg risk_per_trade stop_loss_pct e s i = Inr s' \<longrightarrow>
      (position s = None \<longrightarrow> equity s' = equity s \<and> trades_bt s' = trades_bt s) \<and>
      (\<forall>p. position s = Some p \<longrightarrow>
         (position s' = Some p \<and> equity s' = equity s \<and> trades_bt s' = trades_bt s) \<or>
         (position s' = None \<and>
          (\<exists>t. trades_bt s' = trades_bt s @ [t] \<and> trade.entry t = position.entry p \<and>
               (exit t = stop p \<and> reason t = ''SL'' \<or>
                exit t = closes e ! i \<and> reason t = ''X'') \<and>
               equity s' = qty p * exit t \<and>
               profit t = qty p * exit t - qty p * position.entry p \<and>
               balance_after t = equity s')))) \<and>
   (run_backtest cfg candles initial risk_per_trade stop_loss_pct = Inr res \<longrightarrow>
      initial_balance res = initial \<and>
      final_balance res = (if trades res = [] then initial else balance_after (last (trades res))))"
  using bt_step_frame [of cfg risk_per_trade stop_loss_pct e s i s']
    final_balance_last_close [of cfg candles initial risk_per_trade stop_loss_pct res]
  by (simp add: last_balance_def)

theorem equity_frame_rule_witness:
  "bt_step demo_config (2 / 100) (1 / 100) demo_series demo_holding 3 = Inr demo_closed \<and>
   position demo_holding = Some demo_position \<and> position demo_closed = None \<and>
   trades_bt demo_closed = trades_bt demo_holding @ [demo_trade] \<and>
   exit demo_trade = stop demo_position \<and>
   equity demo_closed = qty demo_position * exit demo_trade \<and>
   profit demo_trade = qty demo_position * exit demo_trade - qty demo_position * position.entry demo_position \<and>
   balance_after demo_trade = equity demo_closed \<and>
   bt_step demo_config (2 / 100) (1 / 100) demo_series demo_flat 2 = Inr demo_holding \<and>
   position demo_flat = None \<and> equity demo_holding = equity demo_flat \<and>
   trades_bt demo_holding = trades_bt demo_flat \<and>
   run_backtest demo_config demo_candles 10 (2 / 100) (1 / 100) = Inr demo_result \<and>
   final_balance demo_result = balance_after (last (trades demo_result))"
  using equity_frame_rule [of demo_config "2 / 100" "1 / 100" demo_series demo_holding 3 demo_closed
      demo_candles 10 demo_result]
    equity_frame_rule [of demo_config "2 / 100" "1 / 100" demo_series demo_flat 2 demo_holding
      demo_candles 10 demo_result]
    demo_stop demo_enter demo_run
  by (simp add: demo_holding_def demo_flat_def demo_closed_def demo_result_def demo_trade_def
        demo_position_def)

text \<open>
  \<^bold>\<open>C4\<close> (stop priority and stop fill), on the indices the loop does not skip. At an index \<open>i\<close> of the scan
  that the length test at the head of the loop body does not skip (no index is skipped
  when the RSI period is not negative), with a position held: if \<open>low[i]\<close> is at most the
  stop, the position is closed at exactly the stop price with reason \<^verbatim>\<open>SL\<close>,
  whether or not the downward crossover holds; if the stop is not hit and the downward
  crossover holds, it is closed at \<open>close[i]\<close> with reason \<^verbatim>\<open>X\<close>.
\<close>

theorem stop_priority:
  assumes "mk_series cfg candles = Inr e"
    and "i \<in> set [2..<length candles - 1]"
    and "position s = Some p"
    and "0 \<le> RSI_PERIOD cfg \<or> \<not> skipped e i"
  shows "(low (candles ! i) \<le> stop p \<longrightarrow>
            bt_step cfg risk_per_trade stop_loss_pct e s i =
              Inr \<lparr>equity = qty p * stop p, position = None,
                   trades_bt = trades_bt s @
                     [\<lparr>time = candle.time (candles ! i), symbol = '''', entry = position.entry p,
                       exit = stop p, profit = qty p * stop p - qty p * position.entry p,
                       balance_after = qty p * stop p, reason = ''SL''\<rparr>]\<rparr>) \<and>
         (\<not> low (candles ! i) \<le> stop p \<and> cross_down e i \<longrightarrow>
            bt_step cfg risk_per_trade stop_loss_pct e s i =
              Inr \<lparr>equity = qty p * close (candles ! i), position = None,
                   trades_bt = trades_bt s @
                     [\<lparr>time = candle.time (candles ! i), symbol = '''', entry = position.entry p,
                       exit = close (candles ! i),
                       profit = qty p * close (candles ! i) - qty p * position.entry p,
                       balance_after = qty p * close (candles ! i), reason = ''X''\<rparr>]\<rparr>)"
proof -
  have ns: "\<not> skipped e i"
    using assms(4) mk_series_not_skipped [OF assms(1) _ assms(2)] by blast
  have "2 \<le> i \<and> i < length candles - 1" using assms(2) by simp
  then have i: "i < length candles" by arith
  have rd: "lows e ! i = low (candles ! i)" "closes e ! i = close (candles ! i)"
    "times e ! i = candle.time (candles ! i)"
    using mk_series_fields(1,2,4) [OF assms(1)] i by simp_all
  show ?thesis
    unfolding bt_step_holding [OF ns assms(3)] closed_trade_def rd by simp
qed

theorem stop_priority_witness:
  "mk_series demo_config demo_candles = Inr demo_series \<and>
   3 \<in> set [2..<length demo_candles - 1] \<and> position demo_holding = Some demo_position \<and>
   0 \<le> RSI_PERIOD demo_config \<and> low (demo_candles ! 3) \<le> stop demo_position \<and>
   bt_step demo_config (2 / 100) (1 / 100) demo_series demo_holding 3 = Inr demo_closed \<and>
   mk_series demo_config exit_candles = Inr exit_series \<and>
   2 \<in> set [2..<length exit_candles - 1] \<and> position exit_holding = Some exit_position \<and>
   \<not> low (exit_candles ! 2) \<le> stop exit_position \<and> cross_down exit_series 2 \<and>
   bt_step demo_config (2 / 100) (1 / 100) exit_series exit_holding 2 =
     Inr \<lparr>equity = 1, position = None, trades_bt = [exit_trade]\<rparr>"
proof -
  have a: "3 \<in> set [2..<length demo_candles - 1]" "position demo_holding = Some demo_position"
    "0 \<le> RSI_PERIOD demo_config \<or> \<not> skipped demo_series 3"
    "low (demo_candles ! 3) \<le> stop demo_position" "0 \<le> RSI_PERIOD demo_config"
    by code_simp+
  have b: "2 \<in> set [2..<length exit_candles - 1]" "position exit_holding = Some exit_position"
    "0 \<le> RSI_PERIOD demo_config \<or> \<not> skipped exit_series 2"
    "\<not> low (exit_candles ! 2) \<le> stop exit_position" "cross_down exit_series 2"
    by code_simp+
  have c: "bt_step demo_config (2 / 100) (1 / 100) exit_series exit_holding 2 =
     Inr \<lparr>equity = 1, position = None, trades_bt = [exit_trade]\<rparr>"
    by code_simp
  from stop_priority [OF demo_mk_series a(1,2,3), of "2 / 100" "1 / 100"]
    stop_priority [OF exit_mk_series b(1,2,3), of "2 / 100" "1 / 100"]
    a b c demo_mk_series exit_mk_series demo_stop
  show ?thesis by blast
qed

text \<open>
  Without that restriction the property fails, for a negative RSI period. In the
  \<open>skip\<close> run the RSI list has two elements for five candles; the position opened at
  index 2 is still held at index 3, whose low \<open>1/2\<close> is below the stop \<open>99/100\<close>,
  and the loop body skips the index: the position stays open and the run ends with an
  empty ledger.
\<close>

theorem stop_skipped_counterexample:
  "mk_series skip_config skip_candles = Inr skip_series \<and>
   for_loop (bt_step skip_config (2 / 100) (1 / 100) skip_series) [2..<3]
      \<lparr>equity = 10, position = None, trades_bt = []\<rparr> = Inr skip_holding \<and>
   position skip_holding = Some skip_position \<and>
   3 \<in> set [2..<length skip_candles - 1] \<and>
   low (skip_candles ! 3) \<le> stop skip_position \<and>
   bt_step skip_config (2 / 100) (1 / 100) skip_series skip_holding 3 = Inr skip_holding \<and>
   run_backtest skip_config skip_candles 10 (2 / 100) (1 / 100) =
     Inr \<lparr>initial_balance = 10, final_balance = 10, trades = []\<rparr>"
  by code_simp

text \<open>
  \<^bold>\<open>C5\<close> (volume filter). At every index \<open>i\<close> of the scan, \<open>vol_ok\<close> is true unless
  the evaluated bar \<open>i - 1\<close> has at least 21 bars before it, and then it holds exactly
  when the volume of bar \<open>i - 1\<close> is greater than \<open>VOLUME_MULTIPLIER\<close> times the mean
  volume of the 20 bars \<open>i - 21, \<dots>, i - 2\<close>.
\<close>

theorem volume_filter:
  assumes "mk_series cfg candles = Inr e" and "i \<in> set [2..<length candles - 1]"
  shows "(vol_ok cfg e i \<longleftrightarrow>
           (21 \<le> i - 1 \<longrightarrow>
              volume (candles ! (i - 1)) >
                VOLUME_MULTIPLIER cfg * ((\<Sum>k = i - 21..<i - 1. volume (candles ! k)) / 20))) \<and>
         (21 \<le> i - 1 \<longrightarrow> card {i - 21..<i - 1} = 20)"
proof -
  have v: "volumes e = map volume candles" by (rule mk_series_fields(3) [OF assms(1)])
  have i: "2 \<le> i" "i < length candles - 1" using assms(2) by simp_all
  then have il: "i - 1 < length candles" by arith
  have "sum_list (drop (i - 21) (take (i - 1) (volumes e))) = (\<Sum>k = i - 21..<i - 1. volumes e ! k)"
    using il v by (intro sum_list_slice) simp
  also have "\<dots> = (\<Sum>k = i - 21..<i - 1. volume (candles ! k))"
  proof (rule sum.cong)
    fix k assume "k \<in> {i - 21..<i - 1}"
    then have "k < length candles" using il by simp
    then show "volumes e ! k = volume (candles ! k)" by (simp add: v)
  qed simp
  finally have s: "sum_list (drop (i - 21) (take (i - 1) (volumes e))) =
      (\<Sum>k = i - 21..<i - 1. volume (candles ! k))" .
  have r: "volumes e ! (i - 1) = volume (candles ! (i - 1))" using il v by simp
  have c: "21 < i \<longleftrightarrow> 21 \<le> i - 1" using i by linarith
  show ?thesis unfolding vol_ok_def Let_def s r c by (auto simp: mult.commute)
qed

theorem volume_filter_witness:
  "\<exists>e. mk_series default_config volume_candles = Inr e \<and>
       22 \<in> set [2..<length volume_candles - 1] \<and> 21 \<le> (22::nat) - 1 \<and>
       volume (volume_candles ! (22 - 1)) >
         VOLUME_MULTIPLIER default_config *
           ((\<Sum>k = 22 - 21..<22 - 1. volume (volume_candles ! k)) / 20) \<and>
       vol_ok default_config e 22"
proof -
  have "\<not> float_overflow 9" "\<not> float_overflow 22"
    by (rule float_overflow_small, simp)+
  then obtain e where e: "mk_series default_config volume_candles = Inr e"
    using mk_series_returns [of default_config volume_candles]
    by (auto simp: default_config_def volume_candles_def)
  have i: "22 \<in> set [2..<length volume_candles - 1]"
    by (simp add: volume_candles_def)
  have v: "volume (volume_candles ! (22 - 1)) >
         VOLUME_MULTIPLIER default_config *
           ((\<Sum>k = 22 - 21..<22 - 1. volume (volume_candles ! k)) / 20)"
    by code_simp
  from volume_filter [OF e i] e i v show ?thesis by auto
qed

text \<open>
  \<^bold>\<open>C7\<close> (RSI with insufficient data). On a list of fewer than \<open>period + 1\<close> elements
  \<open>rsi\<close> does not raise: it returns the constant list of 50 of the length of its input.
\<close>

theorem rsi_insufficient_data:
  "int (length values) < period + 1 \<Longrightarrow> rsi values period = Inr (replicate (length values) 50)"
  by (simp add: rsi_def)

theorem rsi_insufficient_data_witness:
  "int (length [1, 2, 3 :: real]) < 5 + 1 \<and> rsi [1, 2, 3] 5 = Inr [50, 50, 50]"
  using rsi_insufficient_data [of "[1, 2, 3]" 5] by (simp add: numeral_3_eq_3)

text \<open>
  \<^bold>\<open>C8\<close> (EMA seed, length and recurrence), for the spans at which the division
  \<^verbatim>\<open>2.0/(span+1)\<close> is defined. For every span, \<open>ema\<close> returns the empty list exactly
  when its input is empty. For every span other than \<open>-1\<close> whose successor converts to a
  float it returns a list of the length of its input, whose first element is the first
  input and whose element \<open>i \<ge> 1\<close> is \<open>(values[i] - out[i-1]) * \<alpha> + out[i-1]\<close> with
  \<open>\<alpha> = 2 / (span + 1)\<close>. On a non-empty input it raises
  \<^verbatim>\<open>ZeroDivisionError\<close> for the span \<open>-1\<close> and \<^verbatim>\<open>OverflowError\<close> for a span
  whose successor is too large for a float.
\<close>

theorem ema_seed_length_recurrence:
  "(ema values span' = Inr [] \<longleftrightarrow> values = []) \<and>
   (span' \<noteq> - 1 \<and> \<not> float_overflow (span' + 1) \<longrightarrow>
      (\<exists>out. ema values span' = Inr out \<and> length out = length values \<and>
         (values \<noteq> [] \<longrightarrow> out ! 0 = values ! 0) \<and>
         (\<forall>i. 1 \<le> i \<and> i < length values \<longrightarrow>
            out ! i = (values ! i - out ! (i - 1)) * (2 / real_of_int (span' + 1)) + out ! (i - 1)))) \<and>
   (span' = - 1 \<and> values \<noteq> [] \<longrightarrow> ema values span' = Inl ZeroDivisionError) \<and>
   (float_overflow (span' + 1) \<and> values \<noteq> [] \<longrightarrow> ema values span' = Inl OverflowError)"
  using ema_empty_iff [of "values" span'] ema_recurrence [of span' "values"]
    ema_raises [of "values"] ema_overflows [of span' "values"]
  by blast

theorem ema_seed_length_recurrence_witness:
  "(3::int) \<noteq> - 1 \<and> \<not> float_overflow (3 + 1) \<and>
   ema [1, 2, 3, 4] 3 = Inr [1, 3 / 2, 9 / 4, 25 / 8] \<and>
   [1, 3 / 2, 9 / 4, 25 / 8 :: real] ! 2 = (3 - 3 / 2) * (2 / real_of_int (3 + 1)) + 3 / 2 \<and>
   float_overflow (2 ^ 1024 - 1 + 1) \<and> ema [1] (2 ^ 1024 - 1) = Inl OverflowError"
proof -
  have f: "\<not> float_overflow (3 + 1)" by (rule float_overflow_small) simp
  have g: "float_overflow (2 ^ 1024 - 1 + 1)" using float_overflow_large by simp
  have "ema [1, 2, 3, 4] 3 \<noteq> Inr []"
    using ema_seed_length_recurrence [of "[1, 2, 3, 4]" 3] by simp
  from ema_seed_length_recurrence [of "[1, 2, 3, 4]" 3] f
  obtain out where out: "ema [1, 2, 3, 4] 3 = Inr out"
    and rec: "\<forall>i. 1 \<le> i \<and> i < length [1, 2, 3, 4 :: real] \<longrightarrow>
            out ! i = ([1, 2, 3, 4] ! i - out ! (i - 1)) * (2 / real_of_int (3 + 1)) + out ! (i - 1)"
    by auto
  have run: "ema [1, 2, 3, 4] 3 = Inr [1, 3 / 2, 9 / 4, 25 / 8]"
    using f by (simp add: ema_def ema_body_def)
  have o: "out = [1, 3 / 2, 9 / 4, 25 / 8]" using out run by simp
  have "(1::nat) \<le> 2 \<and> 2 < length [1, 2, 3, 4 :: real]" by simp
  with rec have "out ! 2 = ([1, 2, 3, 4] ! 2 - out ! (2 - 1)) * (2 / real_of_int (3 + 1)) + out ! (2 - 1)"
    by blast
  then have r2: "[1, 3 / 2, 9 / 4, 25 / 8 :: real] ! 2 = (3 - 3 / 2) * (2 / real_of_int (3 + 1)) + 3 / 2"
    unfolding o by simp
  have ov: "ema [1] (2 ^ 1024 - 1) = Inl OverflowError"
    using ema_seed_length_recurrence [of "[1]" "2 ^ 1024 - 1"] g by simp
  show ?thesis using f g run r2 ov by simp
qed

text \<open>For every span the property fails: at the span \<open>-1\<close> \<open>ema\<close> returns no list.\<close>

theorem ema_raises_counterexample: "ema [1] (- 1) = Inl ZeroDivisionError"
  using float_overflow_small [of 0] by (simp add: ema_def)

text \<open>
  \<^bold>\<open>C10\<close> (short input), when the indicators do not raise. On fewer than 4 candles
  the scan loop has no iteration: whenever the lists before the loop are computed without
  an exception, \<open>run_backtest\<close> returns the initial balance as final balance and an
  empty ledger, for every initial balance, risk fraction, stop-loss fraction and volume
  multiplier. The lists are computed without an exception whenever, for both EMA spans,
  \<open>span + 1\<close> is not zero and converts to a float, and the RSI period is at least 1.
\<close>

theorem short_input:
  assumes "length candles < 4"
  shows "(\<forall>e. mk_series cfg candles = Inr e \<longrightarrow>
            run_backtest cfg candles initial risk_per_trade stop_loss_pct =
              Inr \<lparr>initial_balance = initial, final_balance = initial, trades = []\<rparr>) \<and>
         (EMA_FAST cfg \<noteq> - 1 \<and> \<not> float_overflow (EMA_FAST cfg + 1) \<and>
          EMA_SLOW cfg \<noteq> - 1 \<and> \<not> float_overflow (EMA_SLOW cfg + 1) \<and>
          1 \<le> RSI_PERIOD cfg \<longrightarrow>
            run_backtest cfg candles initial risk_per_trade stop_loss_pct =
              Inr \<lparr>initial_balance = initial, final_balance = initial, trades = []\<rparr>)"
proof -
  have "int (length candles) < 2 ^ 63" using assms by simp
  then show ?thesis
    using short_run [OF assms] mk_series_returns [of cfg candles] by blast
qed

theorem short_input_witness:
  "length [bar 1 1 1, bar 2 2 1, bar 3 3 1] < 4 \<and>
   EMA_FAST default_config \<noteq> - 1 \<and> \<not> float_overflow (EMA_FAST default_config + 1) \<and>
   EMA_SLOW default_config \<noteq> - 1 \<and> \<not> float_overflow (EMA_SLOW default_config + 1) \<and>
   1 \<le> RSI_PERIOD default_config \<and>
   run_backtest default_config [bar 1 1 1, bar 2 2 1, bar 3 3 1] 10 (2 / 100) (1 / 100) =
     Inr \<lparr>initial_balance = 10, final_balance = 10, trades = []\<rparr>"
proof -
  have f: "\<not> float_overflow (EMA_FAST default_config + 1)"
    "\<not> float_overflow (EMA_SLOW default_config + 1)"
    by (rule float_overflow_small, simp add: default_config_def)+
  from short_input [of "[bar 1 1 1, bar 2 2 1, bar 3 3 1]" default_config 10 "2 / 100" "1 / 100"] f
  show ?thesis by (simp add: default_config_def)
qed

text \<open>
  For all configuration values the property fails: with the fast EMA span \<open>-1\<close>
  the run raises on one candle, before the loop.
\<close>

theorem short_input_counterexample:
  "length [bar 1 1 1] < 4 \<and>
   run_backtest \<lparr>EMA_FAST = - 1, EMA_SLOW = 21, RSI_PERIOD = 14, VOLUME_MULTIPLIER = 1\<rparr>
     [bar 1 1 1] 10 (2 / 100) (1 / 100) = Inl ZeroDivisionError"
  by code_simp

end
